theory Spec2Isabelle
  imports Main
begin

section \<open>Values of the host language\<close>

text \<open>
  The decorator receives arbitrary runtime values. Primitive values are modelled
  directly; objects, arrays and functions have identity and may refer to each other
  (and to themselves), so they live in a heap and a value holds their address.
  Numbers are the integral ones. A property list is kept in enumeration order.
  Names that start with an underscore in the source (\<open>_sanitizeObject\<close>,
  \<open>_serializeObject\<close>, \<open>_combineObject\<close>, \<open>_seqId\<close>, \<open>_config\<close>) lose it here.
\<close>

datatype jsval =
    Undefined
  | Null
  | Bool bool
  | Num int
  | Str string
  | Ref nat

type_synonym props = "(string \<times> jsval) list"

datatype cell =
    Object props
  | Array "jsval list"
  | Function props

type_synonym heap = "cell list"

text \<open>
  Every address a running program holds is allocated. So that reading is total, an
  address beyond the heap reads as an object without properties.
\<close>

definition lookup :: "heap \<Rightarrow> nat \<Rightarrow> cell" where
  "lookup h a = (if a < length h then h ! a else Object [])"

definition alloc :: "heap \<Rightarrow> cell \<Rightarrow> heap \<times> jsval" where
  "alloc h c = (h @ [c], Ref (length h))"

text \<open>Exceptions: a value thrown by user code or by the schema engine, or one of the
  two library errors the serializer can meet. \<open>OutOfFuel\<close> is no exception of the
  program: it marks a traversal cut off by the recursion bound of the model, and
  \<open>SerializeJSONProperty_total\<close> below shows that the bound used is never reached.\<close>

datatype error =
    Raised jsval
  | TypeError
  | SyntaxError
  | OutOfFuel

text \<open>The tree that a JSON text denotes.\<close>

datatype json =
    JNull
  | JBool bool
  | JNum int
  | JStr string
  | JArr "json list"
  | JObj "(string \<times> json) list"

subsection \<open>Library predicates and coercions\<close>

text \<open>\<open>_.isObject\<close>: true of objects, arrays and functions.\<close>

fun isObject :: "jsval \<Rightarrow> bool" where
  "isObject (Ref a) = True"
| "isObject v = False"

text \<open>Truthiness, as \<open>&&\<close> tests it.\<close>

fun truthy :: "jsval \<Rightarrow> bool" where
  "truthy Undefined = False"
| "truthy Null = False"
| "truthy (Bool b) = b"
| "truthy (Num n) = (n \<noteq> 0)"
| "truthy (Str s) = (s \<noteq> [])"
| "truthy (Ref a) = True"

text \<open>
  Property read \<open>v.k\<close>, used by the code on values already known to be truthy and
  only with the keys \<open>connection\<close>, \<open>method\<close>, \<open>url\<close>, \<open>headers\<close>,
  \<open>remoteAddress\<close>, \<open>remotePort\<close>, \<open>statusCode\<close>, \<open>_header\<close>: none of them is
  inherited, and a primitive has none of them.
\<close>

definition get_own :: "props \<Rightarrow> string \<Rightarrow> jsval" where
  "get_own ps k = (case map_of ps k of Some v \<Rightarrow> v | None \<Rightarrow> Undefined)"

fun get_prop :: "heap \<Rightarrow> jsval \<Rightarrow> string \<Rightarrow> jsval" where
  "get_prop h (Ref a) k =
     (case lookup h a of
        Object ps \<Rightarrow> get_own ps k
      | Function ps \<Rightarrow> get_own ps k
      | Array xs \<Rightarrow> (if k = ''length'' then Num (int (length xs)) else Undefined))"
| "get_prop h v k = Undefined"

text \<open>\<open>_.isArray(value)\<close> and \<open>value.length\<close> of an array.\<close>

fun isArray :: "heap \<Rightarrow> jsval \<Rightarrow> bool" where
  "isArray h (Ref a) = (case lookup h a of Array xs \<Rightarrow> True | _ \<Rightarrow> False)"
| "isArray h v = False"

fun array_length :: "heap \<Rightarrow> jsval \<Rightarrow> nat" where
  "array_length h (Ref a) = (case lookup h a of Array xs \<Rightarrow> length xs | _ \<Rightarrow> 0)"
| "array_length h v = 0"

text \<open>Decimal text of a length or an array index.\<close>

definition digit_char :: "nat \<Rightarrow> char" where
  "digit_char n = ''0123456789'' ! n"

fun string_of_nat :: "nat \<Rightarrow> string" where
  "string_of_nat n =
     (if n < 10 then [digit_char n] else string_of_nat (n div 10) @ [digit_char (n mod 10)])"

declare string_of_nat.simps [simp del]

section \<open>Global configuration\<close>

datatype level = LDebug | LError

record logger =
  logger_name :: string
  logger_level :: level

record settings =
  removeFields :: "string list"
  debug :: bool
  depth :: int
  maxArrayLength :: int

text \<open>The logger factory is handed the configuration it is stored in; the model hands
  it the four plain settings.\<close>

record config = settings +
  loggerFactory :: "string \<Rightarrow> settings \<Rightarrow> logger"

text \<open>\<open>bunyan.createLogger({ name, level })\<close>.\<close>

definition createLogger :: "string \<Rightarrow> level \<Rightarrow> logger" where
  "createLogger n l = \<lparr>logger_name = n, logger_level = l\<rparr>"

definition default_loggerFactory :: "string \<Rightarrow> settings \<Rightarrow> logger" where
  "default_loggerFactory serviceName c =
     createLogger serviceName (if debug c then LDebug else LError)"

definition default_config :: config where
  "default_config =
     \<lparr>removeFields = [''password'', ''token'', ''accessToken''],
      debug = True,
      depth = 4,
      maxArrayLength = 30,
      loggerFactory = default_loggerFactory\<rparr>"

section \<open>The serializer\<close>

subsection \<open>The replacer passed to \<open>JSON.stringify\<close>\<close>

text \<open>
  The replacer returns either the value it was given, a marker string, or a freshly
  built projection object (for \<open>req\<close> and \<open>res\<close>). A projection is referenced by
  nothing else, so it is carried as its property list. \<open>seen\<close> is the array the
  replacer closes over; \<open>indexOf\<close> compares with strict equality.
\<close>

datatype replaced = RVal jsval | RFresh props

definition replacer ::
  "'a settings_scheme \<Rightarrow> heap \<Rightarrow> jsval list \<Rightarrow> string \<Rightarrow> jsval \<Rightarrow> jsval list \<times> replaced" where
  "replacer cfg h seen name v =
     (if v \<in> set seen then (seen, RVal (Str ''[Circular]''))
      else
        let seen' = (if isObject v then seen @ [v] else seen) in
        if name \<in> set (removeFields cfg) then (seen', RVal (Str ''<removed>''))
        else if name = ''req'' \<and> truthy v \<and> truthy (get_prop h v ''connection'') then
          (seen', RFresh
            [(''method'', get_prop h v ''method''),
             (''url'', get_prop h v ''url''),
             (''headers'', get_prop h v ''headers''),
             (''remoteAddress'', get_prop h (get_prop h v ''connection'') ''remoteAddress''),
             (''remotePort'', get_prop h (get_prop h v ''connection'') ''remotePort'')])
        else if name = ''res'' \<and> truthy v \<and> truthy (get_prop h v ''statusCode'') then
          (seen', RFresh
            [(''statusCode'', get_prop h v ''statusCode''),
             (''header'', get_prop h v ''_header'')])
        else if isArray h v \<and> int (array_length h v) > maxArrayLength cfg then
          (seen', RVal (Str (''Array('' @ string_of_nat (array_length h v) @ '')'')))
        else (seen', RVal v))"

subsection \<open>\<open>JSON.stringify\<close> with a replacer function\<close>

text \<open>
  The three mutually recursive operations of the language standard. The result of
  stringify is represented by the tree its text denotes; \<open>None\<close> stands for the
  result \<open>undefined\<close> (a property that is left out, or no text at all at the top).
  \<open>stack\<close> holds the heap objects being serialized, against which the standard
  checks for cycles, raising \<open>TypeError\<close>. The first argument bounds the nesting
  depth of the recursion. Values with a \<open>toJSON\<close> method, getters, symbols and big
  integers are outside the value model.
\<close>

text \<open>What is to be done with the value the replacer returned: a leaf with its
  rendering, an object with its own address (a projection has none) and properties,
  or an array with its address and elements. A function is left out.\<close>

datatype node = Leaf "json option" | Members "nat option" props | Elements nat "jsval list"

fun classify :: "heap \<Rightarrow> replaced \<Rightarrow> node" where
  "classify h (RFresh ps) = Members None ps"
| "classify h (RVal Undefined) = Leaf None"
| "classify h (RVal Null) = Leaf (Some JNull)"
| "classify h (RVal (Bool b)) = Leaf (Some (JBool b))"
| "classify h (RVal (Num i)) = Leaf (Some (JNum i))"
| "classify h (RVal (Str s)) = Leaf (Some (JStr s))"
| "classify h (RVal (Ref a)) =
     (case lookup h a of
        Function ps \<Rightarrow> Leaf None
      | Array xs \<Rightarrow> Elements a xs
      | Object ps \<Rightarrow> Members (Some a) ps)"

fun on_stack :: "nat list \<Rightarrow> nat option \<Rightarrow> bool" where
  "on_stack stack None = False"
| "on_stack stack (Some a) = (a \<in> set stack)"

fun push :: "nat option \<Rightarrow> nat list \<Rightarrow> nat list" where
  "push None stack = stack"
| "push (Some a) stack = a # stack"

function SerializeJSONProperty ::
    "nat \<Rightarrow> 'a settings_scheme \<Rightarrow> heap \<Rightarrow> nat list \<Rightarrow> jsval list \<Rightarrow> string \<Rightarrow> jsval
      \<Rightarrow> error + (jsval list \<times> json option)"
  and SerializeJSONObject ::
    "nat \<Rightarrow> 'a settings_scheme \<Rightarrow> heap \<Rightarrow> nat list \<Rightarrow> jsval list \<Rightarrow> props
      \<Rightarrow> error + (jsval list \<times> (string \<times> json) list)"
  and SerializeJSONArray ::
    "nat \<Rightarrow> 'a settings_scheme \<Rightarrow> heap \<Rightarrow> nat list \<Rightarrow> jsval list \<Rightarrow> nat \<Rightarrow> jsval list
      \<Rightarrow> error + (jsval list \<times> json list)"
where
  "SerializeJSONProperty 0 cfg h stack seen key v = Inl OutOfFuel"
| "SerializeJSONProperty (Suc n) cfg h stack seen key v =
     (case replacer cfg h seen key v of
        (seen', r) \<Rightarrow>
          (case classify h r of
             Leaf j \<Rightarrow> Inr (seen', j)
           | Members a ps \<Rightarrow>
               if on_stack stack a then Inl TypeError
               else (case SerializeJSONObject n cfg h (push a stack) seen' ps of
                       Inl e \<Rightarrow> Inl e
                     | Inr (seen'', ms) \<Rightarrow> Inr (seen'', Some (JObj ms)))
           | Elements a xs \<Rightarrow>
               if a \<in> set stack then Inl TypeError
               else (case SerializeJSONArray n cfg h (a # stack) seen' 0 xs of
                       Inl e \<Rightarrow> Inl e
                     | Inr (seen'', js) \<Rightarrow> Inr (seen'', Some (JArr js)))))"
| "SerializeJSONObject n cfg h stack seen [] = Inr (seen, [])"
| "SerializeJSONObject n cfg h stack seen ((k, v) # ps) =
     (case SerializeJSONProperty n cfg h stack seen k v of
        Inl e \<Rightarrow> Inl e
      | Inr (seen', r) \<Rightarrow>
          (case SerializeJSONObject n cfg h stack seen' ps of
             Inl e \<Rightarrow> Inl e
           | Inr (seen'', ms) \<Rightarrow>
               Inr (seen'', (case r of None \<Rightarrow> ms | Some j \<Rightarrow> (k, j) # ms))))"
| "SerializeJSONArray n cfg h stack seen i [] = Inr (seen, [])"
| "SerializeJSONArray n cfg h stack seen i (v # vs) =
     (case SerializeJSONProperty n cfg h stack seen (string_of_nat i) v of
        Inl e \<Rightarrow> Inl e
      | Inr (seen', r) \<Rightarrow>
          (case SerializeJSONArray n cfg h stack seen' (Suc i) vs of
             Inl e \<Rightarrow> Inl e
           | Inr (seen'', js) \<Rightarrow>
               Inr (seen'', (case r of None \<Rightarrow> JNull | Some j \<Rightarrow> j) # js)))"
  by pat_completeness auto

termination
  by (relation "inv_image (less_than <*lex*> less_than)
        (\<lambda>x. case x of
           Inl (n, cfg, h, stack, seen, key, v) \<Rightarrow> (n, 0)
         | Inr (Inl (n, cfg, h, stack, seen, ps)) \<Rightarrow> (n, Suc (length ps))
         | Inr (Inr (n, cfg, h, stack, seen, i, vs)) \<Rightarrow> (n, Suc (length vs)))") auto

text \<open>
  \<open>JSON.stringify(obj, replacer)\<close>: the value is serialized as the property \<open>""\<close>
  of a wrapper object, with an empty stack, and here with an empty \<open>seen\<close>, since
  \<open>_sanitizeObject\<close> creates the array anew on each call. One level of nesting is
  needed for the top and at most one more for every heap object.
\<close>

definition JSON_stringify :: "'a settings_scheme \<Rightarrow> heap \<Rightarrow> jsval \<Rightarrow> error + json option" where
  "JSON_stringify cfg h obj =
     (case SerializeJSONProperty (Suc (length h)) cfg h [] [] [] obj of
        Inl e \<Rightarrow> Inl e
      | Inr (seen, r) \<Rightarrow> Inr r)"

text \<open>\<open>JSON.parse\<close>: the argument \<open>undefined\<close> is read as the text
  \<open>undefined\<close>, which is no JSON text.\<close>

fun JSON_parse :: "json option \<Rightarrow> error + json" where
  "JSON_parse None = Inl SyntaxError"
| "JSON_parse (Some t) = Inr t"

text \<open>\<open>_sanitizeObject\<close>; the result \<open>None\<close> is \<open>undefined\<close>.\<close>

definition sanitizeObject :: "'a settings_scheme \<Rightarrow> heap \<Rightarrow> jsval \<Rightarrow> error + json option" where
  "sanitizeObject cfg h obj =
     (if obj = Undefined then Inr None
      else (case JSON_stringify cfg h obj of
              Inl e \<Rightarrow> Inl e
            | Inr text \<Rightarrow> (case JSON_parse text of Inl e \<Rightarrow> Inl e | Inr t \<Rightarrow> Inr (Some t))))"

text \<open>
  \<open>_serializeObject\<close>. \<open>util.inspect\<close> belongs to the platform and its layout
  differs between versions, so it is a parameter: a total function from the depth
  option and the sanitized value to text.
\<close>

definition serializeObject ::
  "(int \<Rightarrow> json option \<Rightarrow> string) \<Rightarrow> 'a settings_scheme \<Rightarrow> heap \<Rightarrow> jsval \<Rightarrow> error + string" where
  "serializeObject inspect cfg h obj =
     (case sanitizeObject cfg h obj of
        Inl e \<Rightarrow> Inl e
      | Inr t \<Rightarrow> Inr (inspect (depth cfg) t))"

section \<open>The argument mapper\<close>

text \<open>
  \<open>ret[k] = v\<close> on a plain object: an existing property keeps its place, a new one
  is added last. \<open>params[i]\<close> beyond the end of the array is \<open>undefined\<close>, and
  \<open>undefined\<close> used as a property key is the key \<open>"undefined"\<close>.
\<close>

fun obj_set :: "props \<Rightarrow> string \<Rightarrow> jsval \<Rightarrow> props" where
  "obj_set [] k v = [(k, v)]"
| "obj_set ((k', v') # ps) k v =
     (if k' = k then (k, v) # ps else (k', v') # obj_set ps k v)"

definition key_at :: "string list \<Rightarrow> nat \<Rightarrow> string" where
  "key_at params i = (if i < length params then params ! i else ''undefined'')"

text \<open>The loop \<open>_.each(arr, (arg, i) => { ret[params[i]] = arg; })\<close>, from index \<open>i\<close> on.\<close>

fun combine_from :: "string list \<Rightarrow> nat \<Rightarrow> jsval list \<Rightarrow> props \<Rightarrow> props" where
  "combine_from params i [] ret = ret"
| "combine_from params i (arg # arr) ret =
     combine_from params (Suc i) arr (obj_set ret (key_at params i) arg)"

definition combineObject :: "string list \<Rightarrow> jsval list \<Rightarrow> props" where
  "combineObject params arr = combine_from params 0 arr []"

section \<open>Operations and their outcomes\<close>

text \<open>
  A call either returns a value, throws, or returns a deferred value, which settles
  with a value or a failure or stays pending. A returned value with a callable
  \<open>then\<close> is a deferred value. The original function is a parameter; it is taken
  to be a function of its arguments alone, which leaves calls of decorated
  operations from inside an operation out of the model. The schema engine is the
  field \<open>schema\<close>: the map from the named arguments to the normalized named
  arguments or the validation failure that \<open>Joi.attempt(value, schema)\<close> computes.
\<close>

datatype settled = Resolve jsval | Reject error | Pending

datatype outcome = Return jsval | Throw error | Deferred settled

text \<open>The function object as the service holds it: \<open>declared\<close> is its optional
  property \<open>params\<close>, \<open>formals\<close> are the parameter names in its source text, which
  is what \<open>getParams\<close> reads.\<close>

record func =
  declared :: "string list option"
  formals :: "string list"
  removeOutput :: bool
  sync :: bool
  schema :: "props \<Rightarrow> error + props"
  body :: "jsval list \<Rightarrow> outcome"

text \<open>The same object once \<open>decorate\<close> has set \<open>methodName\<close> and \<open>params\<close> on it.\<close>

record meth = func +
  methodName :: string
  params :: "string list"

definition getParams :: "'a func_scheme \<Rightarrow> string list" where
  "getParams f = formals f"

section \<open>The validation wrapper\<close>

definition validate :: "meth \<Rightarrow> jsval list \<Rightarrow> outcome" where
  "validate method args =
     (let value = combineObject (params method) args in
      case schema method value of
        Inl e \<Rightarrow> if sync method then Throw e else Deferred (Reject e)
      | Inr normalized \<Rightarrow>
          body method (map (\<lambda>param. get_own normalized param) (params method)))"

section \<open>The logging wrapper\<close>

text \<open>
  A record handed to the logger: on the debug channel the context \<open>{ id }\<close>, the
  label and the payload; on the error channel the optional context, the label and
  the error (\<open>logger.error(e)\<close> has neither context nor label). As the logging
  library has it, a logger of level \<open>debug\<close> emits both channels, one of level
  \<open>error\<close> only the error channel.
\<close>

datatype logrec =
    DebugRec nat string string
  | ErrorRec "nat option" string error

text \<open>The state the functions of the module act on: the counter \<open>_seqId\<close>, the
  object \<open>_config\<close>, the heap that holds the values in play, and the records the
  loggers have emitted so far. The original functions do not allocate in the model:
  what they return lies in this heap.\<close>

record world =
  seqId :: nat
  conf :: config
  mem :: heap
  sink :: "logrec list"

definition logger_debug :: "logger \<Rightarrow> logrec \<Rightarrow> world \<Rightarrow> world" where
  "logger_debug lg r w =
     (if logger_level lg = LDebug then w\<lparr>sink := sink w @ [r]\<rparr> else w)"

definition logger_error :: "logger \<Rightarrow> logrec \<Rightarrow> world \<Rightarrow> world" where
  "logger_error lg r w = w\<lparr>sink := sink w @ [r]\<rparr>"

definition resetId :: "world \<Rightarrow> world" where
  "resetId w = w\<lparr>seqId := 0\<rparr>"

definition logExit ::
  "(int \<Rightarrow> json option \<Rightarrow> string) \<Rightarrow> logger \<Rightarrow> meth \<Rightarrow> jsval \<Rightarrow> nat \<Rightarrow> world
     \<Rightarrow> error + world" where
  "logExit inspect lg opts output ident w =
     (case (if removeOutput opts then Inr ''<removed>''
            else serializeObject inspect (conf w) (mem w) output) of
        Inl e \<Rightarrow> Inl e
      | Inr formattedOutput \<Rightarrow>
          Inr (logger_debug lg
                 (DebugRec ident ('' EXIT '' @ methodName opts @ '':'') formattedOutput) w))"

text \<open>
  The constant \<open>formattedInput\<close> of \<open>logDecorator\<close>. The object built by
  \<open>_combineObject\<close> is allocated for the serialization and is garbage afterwards.
\<close>

definition formatInput ::
  "(int \<Rightarrow> json option \<Rightarrow> string) \<Rightarrow> meth \<Rightarrow> jsval list \<Rightarrow> world \<Rightarrow> error + string" where
  "formatInput inspect opts args w =
     (if params opts \<noteq> []
      then (case alloc (mem w) (Object (combineObject (params opts) args)) of
              (h', obj) \<Rightarrow> serializeObject inspect (conf w) h' obj)
      else Inr ''{ }'')"

text \<open>
  \<open>logDecorator\<close>. The handlers attached to a deferred result run when it settles;
  the model runs them at the call, so the order of records of overlapping
  asynchronous calls is not represented.
\<close>

definition log ::
  "(int \<Rightarrow> json option \<Rightarrow> string) \<Rightarrow> (jsval list \<Rightarrow> outcome) \<Rightarrow> logger \<Rightarrow> meth
     \<Rightarrow> jsval list \<Rightarrow> world \<Rightarrow> outcome \<times> world" where
  "log inspect method lg opts args w =
     (let ident = seqId w + 1;
          w1 = w\<lparr>seqId := ident\<rparr> in
      case formatInput inspect opts args w1 of
        Inl e \<Rightarrow> (Throw e, w1)
      | Inr formattedInput \<Rightarrow>
          let w2 = logger_debug lg
                     (DebugRec ident (''ENTER '' @ methodName opts @ '':'') formattedInput) w1;
              failed = (\<lambda>e. logger_error lg
                     (ErrorRec (Some ident)
                        (''ERROR '' @ methodName opts @ '': '' @ formattedInput @ [CHR '' '', CHR 0x0A])
                        e) w2)
          in
          case method args of
            Throw e \<Rightarrow> (Throw e, logger_error lg (ErrorRec None [] e) w2)
          | Deferred s \<Rightarrow>
              (case s of
                 Resolve asyncResult \<Rightarrow>
                   (case logExit inspect lg opts asyncResult ident w2 of
                      Inr w3 \<Rightarrow> (Deferred (Resolve asyncResult), w3)
                    | Inl e \<Rightarrow> (Deferred (Reject e), failed e))
               | Reject e \<Rightarrow> (Deferred (Reject e), failed e)
               | Pending \<Rightarrow> (Deferred Pending, w2))
          | Return result \<Rightarrow>
              (case logExit inspect lg opts result ident w2 of
                 Inl e \<Rightarrow> (Throw e, w2)
               | Inr w3 \<Rightarrow> (Return result, w3)))"

section \<open>The service decorator and the configuration entry point\<close>

text \<open>A decorated operation: the closure of \<open>logDecorator\<close> over the logger built
  at decoration time and the function object.\<close>

record decorated =
  d_logger :: logger
  d_meth :: meth

definition resolve :: "string \<Rightarrow> func \<Rightarrow> meth" where
  "resolve name f =
     func.extend f
       \<lparr>methodName = name,
        params = (case declared f of None \<Rightarrow> getParams f | Some ps \<Rightarrow> ps)\<rparr>"

definition decorate :: "(string \<times> func) list \<Rightarrow> string \<Rightarrow> world \<Rightarrow> (string \<times> decorated) list" where
  "decorate service serviceName w =
     (let lg = loggerFactory (conf w) serviceName (settings.truncate (conf w)) in
      map (\<lambda>(name, f). (name, \<lparr>d_logger = lg, d_meth = resolve name f\<rparr>)) service)"

text \<open>Calling \<open>service[name]\<close> after decoration: \<open>log(validate(method), logger, method)\<close>.\<close>

definition invoke ::
  "(int \<Rightarrow> json option \<Rightarrow> string) \<Rightarrow> decorated \<Rightarrow> jsval list \<Rightarrow> world \<Rightarrow> outcome \<times> world" where
  "invoke inspect d args w = log inspect (validate (d_meth d)) (d_logger d) (d_meth d) args w"

text \<open>\<open>configure(opts)\<close> is \<open>_.extend(_config, opts)\<close>: every key present in \<open>opts\<close>
  is assigned. An absent key is \<open>None\<close>.\<close>

record options =
  opt_removeFields :: "string list option"
  opt_debug :: "bool option"
  opt_depth :: "int option"
  opt_maxArrayLength :: "int option"
  opt_loggerFactory :: "(string \<Rightarrow> settings \<Rightarrow> logger) option"

definition extend_config :: "config \<Rightarrow> options \<Rightarrow> config" where
  "extend_config c opts =
     c\<lparr>removeFields := (case opt_removeFields opts of Some x \<Rightarrow> x | None \<Rightarrow> removeFields c),
       debug := (case opt_debug opts of Some x \<Rightarrow> x | None \<Rightarrow> debug c),
       depth := (case opt_depth opts of Some x \<Rightarrow> x | None \<Rightarrow> depth c),
       maxArrayLength := (case opt_maxArrayLength opts of Some x \<Rightarrow> x | None \<Rightarrow> maxArrayLength c),
       loggerFactory := (case opt_loggerFactory opts of Some x \<Rightarrow> x | None \<Rightarrow> loggerFactory c)\<rparr>"

definition configure :: "options \<Rightarrow> world \<Rightarrow> world" where
  "configure opts w = w\<lparr>conf := extend_config (conf w) opts\<rparr>"

text \<open>The state of a freshly loaded module, over a given heap.\<close>

definition initial :: "heap \<Rightarrow> world" where
  "initial h = \<lparr>seqId = 0, conf = default_config, mem = h, sink = []\<rparr>"

section \<open>Notions used in the statements\<close>

text \<open>\<open>_.isFunction\<close>.\<close>

fun isFunction :: "heap \<Rightarrow> jsval \<Rightarrow> bool" where
  "isFunction h (Ref a) = (case lookup h a of Function ps \<Rightarrow> True | _ \<Rightarrow> False)"
| "isFunction h v = False"

text \<open>The number of allocated objects that the replacer has not pushed yet.\<close>

definition unseen :: "heap \<Rightarrow> jsval list \<Rightarrow> nat" where
  "unseen h seen = card {a. a < length h \<and> Ref a \<notin> set seen}"


text \<open>The correlation id a log record carries, if any.\<close>

fun rec_id :: "logrec \<Rightarrow> nat option" where
  "rec_id (DebugRec i l p) = Some i"
| "rec_id (ErrorRec c l e) = c"

section \<open>Example operations\<close>

text \<open>Functions as a service may hold them. Two schemas: one accepts every argument
  mapping unchanged, one rejects every mapping. The operations: one returns the
  function object at address 0, one throws, one adds its two arguments, and two
  have the rejecting schema, declared synchronous and not.\<close>

definition accept_all :: "props \<Rightarrow> error + props" where
  "accept_all value = Inr value"

definition refuse :: "props \<Rightarrow> error + props" where
  "refuse value = Inl (Raised (Str ''id must be a number''))"

definition getHandler :: func where
  "getHandler =
     \<lparr>declared = None, formals = [], removeOutput = False, sync = True,
      schema = accept_all, body = (\<lambda>args. Return (Ref 0))\<rparr>"

definition failing :: func where
  "failing =
     \<lparr>declared = None, formals = [], removeOutput = False, sync = True,
      schema = accept_all, body = (\<lambda>args. Throw (Raised (Str ''boom'')))\<rparr>"

fun add_body :: "jsval list \<Rightarrow> outcome" where
  "add_body [Num a, Num b] = Return (Num (a + b))"
| "add_body args = Return Undefined"

definition add :: func where
  "add =
     \<lparr>declared = None, formals = [''a'', ''b''], removeOutput = False, sync = True,
      schema = accept_all, body = add_body\<rparr>"

definition getUser :: func where
  "getUser =
     \<lparr>declared = Some [''id''], formals = [''id''], removeOutput = False, sync = False,
      schema = refuse, body = (\<lambda>args. Deferred (Resolve Null))\<rparr>"

definition getUserSync :: func where
  "getUserSync = getUser\<lparr>sync := True\<rparr>"



text \<open>A stand-in for \<open>util.inspect\<close> in evaluated examples: everything on one line,
  substructures below the depth replaced by a placeholder.\<close>

fun intercalate :: "string \<Rightarrow> string list \<Rightarrow> string" where
  "intercalate sep [] = []"
| "intercalate sep [x] = x"
| "intercalate sep (x # y # zs) = x @ sep @ intercalate sep (y # zs)"

fun show_json :: "int \<Rightarrow> json \<Rightarrow> string" where
  "show_json d JNull = ''null''"
| "show_json d (JBool b) = (if b then ''true'' else ''false'')"
| "show_json d (JNum i) = (if i < 0 then ''-'' else []) @ string_of_nat (nat \<bar>i\<bar>)"
| "show_json d (JStr s) = [CHR 0x27] @ s @ [CHR 0x27]"
| "show_json d (JArr js) =
     (if d < 0 then ''[Array]''
      else if js = [] then ''[]''
      else ''[ '' @ intercalate '', '' (map (show_json (d - 1)) js) @ '' ]'')"
| "show_json d (JObj ms) =
     (if d < 0 then ''[Object]''
      else if ms = [] then ''{}''
      else ''{ '' @ intercalate '', ''
             (map (\<lambda>m. fst m @ '': '' @ show_json (d - 1) (snd m)) ms) @ '' }'')"

fun show_value :: "int \<Rightarrow> json option \<Rightarrow> string" where
  "show_value d None = ''undefined''"
| "show_value d (Some t) = show_json d t"


section \<open>Properties of the serializer\<close>

subsection \<open>The replacer\<close>

lemma replacer_cases:
  "replacer cfg h seen name v = (seen', r) \<Longrightarrow>
     (v \<in> set seen \<and> seen' = seen \<and> r = RVal (Str ''[Circular]'')) \<or>
     (v \<notin> set seen \<and> seen' = (if isObject v then seen @ [v] else seen))"
  by (auto simp: replacer_def Let_def split: if_splits)

lemma replacer_mono: "replacer cfg h seen name v = (seen', r) \<Longrightarrow> set seen \<subseteq> set seen'"
  by (drule replacer_cases) auto

lemma replacer_result:
  "replacer cfg h seen name v = (seen', r) \<Longrightarrow>
     (\<exists>s. r = RVal (Str s)) \<or> r = RVal v \<and> v \<notin> set seen
     \<or> (\<exists>ps k. r = RFresh ps \<and> v \<notin> set seen \<and> truthy (get_prop h v k))"
  by (auto simp: replacer_def Let_def split: if_splits)

lemma truthy_get_prop:
  "truthy (get_prop h v k) \<Longrightarrow> \<exists>a. v = Ref a \<and> a < length h"
  by (cases v) (auto simp: lookup_def get_own_def split: if_splits)

lemma classify_Members_Some:
  "classify h r = Members (Some a) ps \<longleftrightarrow> r = RVal (Ref a) \<and> lookup h a = Object ps"
  by (induction h r rule: classify.induct) (auto split: cell.splits)

lemma classify_Members_None:
  "classify h r = Members None ps \<longleftrightarrow> r = RFresh ps"
  by (induction h r rule: classify.induct) (auto split: cell.splits)

lemma classify_Elements:
  "classify h r = Elements a xs \<longleftrightarrow> r = RVal (Ref a) \<and> lookup h a = Array xs"
  by (induction h r rule: classify.induct) (auto split: cell.splits)

lemma classify_object:
  assumes "replacer cfg h seen name v = (seen', r)" and "classify h r = Members (Some a) ps"
  shows "v = Ref a \<and> Ref a \<notin> set seen \<and> seen' = seen @ [Ref a] \<and> lookup h a = Object ps"
  using replacer_result [OF assms(1)] replacer_cases [OF assms(1)] assms(2)
  by (auto simp: classify_Members_Some)

lemma classify_array:
  assumes "replacer cfg h seen name v = (seen', r)" and "classify h r = Elements a xs"
  shows "v = Ref a \<and> Ref a \<notin> set seen \<and> seen' = seen @ [Ref a] \<and> lookup h a = Array xs
           \<and> a < length h"
  using replacer_result [OF assms(1)] replacer_cases [OF assms(1)] assms(2)
  by (auto simp: classify_Elements lookup_def split: if_splits)

lemma classify_fresh:
  assumes "replacer cfg h seen name v = (seen', r)" and "classify h r = Members None ps"
  shows "\<exists>a. v = Ref a \<and> a < length h \<and> Ref a \<notin> set seen \<and> seen' = seen @ [Ref a]"
  using replacer_result [OF assms(1)] replacer_cases [OF assms(1)] assms(2)
  by (auto simp: classify_Members_None dest!: truthy_get_prop)

subsection \<open>The visited list only grows\<close>

lemma SerializeJSONObject_mono_step:
  assumes P: "\<And>stack seen k v seen' r.
      SerializeJSONProperty n cfg h stack seen k v = Inr (seen', r) \<Longrightarrow> set seen \<subseteq> set seen'"
  shows "SerializeJSONObject n cfg h stack seen ps = Inr (seen', ms) \<Longrightarrow> set seen \<subseteq> set seen'"
proof (induction ps arbitrary: seen seen' ms)
  case Nil
  then show ?case by simp
next
  case (Cons p ps)
  obtain k v where p: "p = (k, v)" by (cases p)
  from Cons.prems p obtain s1 r1 s2 ms2 where
    a: "SerializeJSONProperty n cfg h stack seen k v = Inr (s1, r1)" and
    b: "SerializeJSONObject n cfg h stack s1 ps = Inr (s2, ms2)" and c: "seen' = s2"
    by (auto split: sum.splits)
  from P [OF a] Cons.IH [OF b] c show ?case by blast
qed

lemma SerializeJSONArray_mono_step:
  assumes P: "\<And>stack seen k v seen' r.
      SerializeJSONProperty n cfg h stack seen k v = Inr (seen', r) \<Longrightarrow> set seen \<subseteq> set seen'"
  shows "SerializeJSONArray n cfg h stack seen i vs = Inr (seen', js) \<Longrightarrow> set seen \<subseteq> set seen'"
proof (induction vs arbitrary: seen seen' js i)
  case Nil
  then show ?case by simp
next
  case (Cons v vs)
  from Cons.prems obtain s1 r1 s2 js2 where
    a: "SerializeJSONProperty n cfg h stack seen (string_of_nat i) v = Inr (s1, r1)" and
    b: "SerializeJSONArray n cfg h stack s1 (Suc i) vs = Inr (s2, js2)" and c: "seen' = s2"
    by (auto split: sum.splits)
  from P [OF a] Cons.IH [OF b] c show ?case by blast
qed

lemma SerializeJSONProperty_mono:
  "SerializeJSONProperty n cfg h stack seen k v = Inr (seen', r) \<Longrightarrow> set seen \<subseteq> set seen'"
proof (induction n arbitrary: stack seen k v seen' r)
  case 0
  then show ?case by simp
next
  case (Suc n)
  obtain s1 r1 where rep: "replacer cfg h seen k v = (s1, r1)" by (cases "replacer cfg h seen k v")
  note m1 = replacer_mono [OF rep]
  show ?case
  proof (cases "classify h r1")
    case (Leaf j)
    with Suc.prems rep m1 show ?thesis by auto
  next
    case (Members a ps)
    with Suc.prems rep obtain ms where
      "SerializeJSONObject n cfg h (push a stack) s1 ps = Inr (seen', ms)"
      by (auto split: if_splits sum.splits)
    then have "set s1 \<subseteq> set seen'"
      by (rule SerializeJSONObject_mono_step [rotated]) (rule Suc.IH)
    with m1 show ?thesis by blast
  next
    case (Elements a xs)
    with Suc.prems rep obtain js where
      "SerializeJSONArray n cfg h (a # stack) s1 0 xs = Inr (seen', js)"
      by (auto split: if_splits sum.splits)
    then have "set s1 \<subseteq> set seen'"
      by (rule SerializeJSONArray_mono_step [rotated]) (rule Suc.IH)
    with m1 show ?thesis by blast
  qed
qed



subsection \<open>The traversal ends and raises nothing\<close>

lemma unseen_mono: "set seen \<subseteq> set seen' \<Longrightarrow> unseen h seen' \<le> unseen h seen"
  unfolding unseen_def by (rule card_mono) auto

lemma unseen_push:
  assumes "a < length h" and "Ref a \<notin> set seen"
  shows "unseen h (seen @ [Ref a]) < unseen h seen"
  unfolding unseen_def
proof (rule psubset_card_mono)
  show "finite {a. a < length h \<and> Ref a \<notin> set seen}" by simp
  show "{b. b < length h \<and> Ref b \<notin> set (seen @ [Ref a])} \<subset> {a. a < length h \<and> Ref a \<notin> set seen}"
    using assms by auto
qed

lemma SerializeJSONObject_total_step:
  assumes P: "\<And>stack seen k v. unseen h seen < n \<Longrightarrow> Ref ` set stack \<subseteq> set seen \<Longrightarrow>
      \<exists>seen' r. SerializeJSONProperty n cfg h stack seen k v = Inr (seen', r)"
  shows "unseen h seen < n \<or> ps = [] \<Longrightarrow> Ref ` set stack \<subseteq> set seen \<Longrightarrow>
      \<exists>seen' ms. SerializeJSONObject n cfg h stack seen ps = Inr (seen', ms)"
proof (induction ps arbitrary: seen)
  case Nil
  then show ?case by simp
next
  case (Cons p ps)
  obtain k v where p: "p = (k, v)" by (cases p)
  from Cons.prems have u: "unseen h seen < n" by simp
  from P [OF u Cons.prems(2)] obtain s1 r1 where
    a: "SerializeJSONProperty n cfg h stack seen k v = Inr (s1, r1)" by blast
  have m: "set seen \<subseteq> set s1" by (rule SerializeJSONProperty_mono [OF a])
  have "unseen h s1 < n" using unseen_mono [OF m, of h] u by simp
  moreover have "Ref ` set stack \<subseteq> set s1" using m Cons.prems(2) by blast
  ultimately obtain s2 ms where "SerializeJSONObject n cfg h stack s1 ps = Inr (s2, ms)"
    using Cons.IH by blast
  with a p show ?case by simp
qed

lemma SerializeJSONArray_total_step:
  assumes P: "\<And>stack seen k v. unseen h seen < n \<Longrightarrow> Ref ` set stack \<subseteq> set seen \<Longrightarrow>
      \<exists>seen' r. SerializeJSONProperty n cfg h stack seen k v = Inr (seen', r)"
  shows "unseen h seen < n \<or> vs = [] \<Longrightarrow> Ref ` set stack \<subseteq> set seen \<Longrightarrow>
      \<exists>seen' js. SerializeJSONArray n cfg h stack seen i vs = Inr (seen', js)"
proof (induction vs arbitrary: seen i)
  case Nil
  then show ?case by simp
next
  case (Cons v vs)
  from Cons.prems have u: "unseen h seen < n" by simp
  from P [OF u Cons.prems(2)] obtain s1 r1 where
    a: "SerializeJSONProperty n cfg h stack seen (string_of_nat i) v = Inr (s1, r1)" by blast
  have m: "set seen \<subseteq> set s1" by (rule SerializeJSONProperty_mono [OF a])
  have "unseen h s1 < n" using unseen_mono [OF m, of h] u by simp
  moreover have "Ref ` set stack \<subseteq> set s1" using m Cons.prems(2) by blast
  ultimately obtain s2 js where "SerializeJSONArray n cfg h stack s1 (Suc i) vs = Inr (s2, js)"
    using Cons.IH by blast
  with a show ?case by simp
qed

lemma SerializeJSONProperty_total:
  "unseen h seen < n \<Longrightarrow> Ref ` set stack \<subseteq> set seen \<Longrightarrow>
     \<exists>seen' r. SerializeJSONProperty n cfg h stack seen k v = Inr (seen', r)"
proof (induction n arbitrary: stack seen k v)
  case 0
  then show ?case by simp
next
  case (Suc n)
  obtain s1 r1 where rep: "replacer cfg h seen k v = (s1, r1)" by (cases "replacer cfg h seen k v")
  note m1 = replacer_mono [OF rep]
  show ?case
  proof (cases "classify h r1")
    case (Leaf j)
    with rep show ?thesis by simp
  next
    case (Members ao ps)
    show ?thesis
    proof (cases ao)
      case None
      from classify_fresh [OF rep Members [unfolded None]] obtain a where
        a: "a < length h" "Ref a \<notin> set seen" "s1 = seen @ [Ref a]" by blast
      have "unseen h s1 < n" using unseen_push [OF a(1,2)] a(3) Suc.prems(1) by simp
      moreover have "Ref ` set stack \<subseteq> set s1" using m1 Suc.prems(2) by blast
      ultimately have "\<exists>seen' ms. SerializeJSONObject n cfg h stack s1 ps = Inr (seen', ms)"
        by (intro SerializeJSONObject_total_step Suc.IH) auto
      with rep Members None show ?thesis by auto
    next
      case (Some a)
      from classify_object [OF rep Members [unfolded Some]] have
        a: "Ref a \<notin> set seen" "s1 = seen @ [Ref a]" "lookup h a = Object ps" by auto
      have ns: "a \<notin> set stack" using a(1) Suc.prems(2) by blast
      have u: "unseen h s1 < n \<or> ps = []"
      proof (cases "a < length h")
        case True
        then show ?thesis using unseen_push [OF True a(1)] a(2) Suc.prems(1) by simp
      next
        case False
        then show ?thesis using a(3) by (simp add: lookup_def)
      qed
      have "Ref ` set (a # stack) \<subseteq> set s1" using a(2) Suc.prems(2) by auto
      with u have "\<exists>seen' ms. SerializeJSONObject n cfg h (a # stack) s1 ps = Inr (seen', ms)"
        by (intro SerializeJSONObject_total_step Suc.IH) auto
      with rep Members Some ns show ?thesis by auto
    qed
  next
    case (Elements a xs)
    from classify_array [OF rep Elements] have
      a: "Ref a \<notin> set seen" "s1 = seen @ [Ref a]" "a < length h" by auto
    have ns: "a \<notin> set stack" using a(1) Suc.prems(2) by blast
    have u: "unseen h s1 < n" using unseen_push [OF a(3,1)] a(2) Suc.prems(1) by simp
    have "Ref ` set (a # stack) \<subseteq> set s1" using a(2) Suc.prems(2) by auto
    with u have "\<exists>seen' js. SerializeJSONArray n cfg h (a # stack) s1 0 xs = Inr (seen', js)"
      by (intro SerializeJSONArray_total_step Suc.IH) auto
    with rep Elements ns show ?thesis by auto
  qed
qed

lemma JSON_stringify_returns: "\<exists>r. JSON_stringify cfg h v = Inr r"
proof -
  have "unseen h [] < Suc (length h)"
    unfolding unseen_def by (simp add: le_imp_less_Suc)
  from SerializeJSONProperty_total [OF this, of "[]" cfg "[]" v]
  show ?thesis by (auto simp: JSON_stringify_def)
qed


subsection \<open>What the traversal leaves in the visited list and in the tree\<close>







subsection \<open>Redaction\<close>







subsection \<open>What \<open>_sanitizeObject\<close> returns\<close>

lemma classify_Leaf_None:
  "classify h r = Leaf None \<Longrightarrow> r = RVal Undefined \<or> (\<exists>a. r = RVal (Ref a) \<and> isFunction h (Ref a))"
  by (induction h r rule: classify.induct) (auto split: cell.splits)

lemma SerializeJSONProperty_None:
  assumes "SerializeJSONProperty n cfg h stack seen k v = Inr (seen', None)"
  shows "v = Undefined \<or> isFunction h v"
proof (cases n)
  case 0
  with assms show ?thesis by simp
next
  case (Suc m)
  obtain s1 r1 where rep: "replacer cfg h seen k v = (s1, r1)" by (cases "replacer cfg h seen k v")
  from assms Suc rep have "classify h r1 = Leaf None"
    by (cases "classify h r1") (auto split: if_splits sum.splits)
  from classify_Leaf_None [OF this] replacer_result [OF rep] show ?thesis by auto
qed

lemma sanitizeObject_returns:
  assumes "\<not> isFunction h v"
  shows "\<exists>t. sanitizeObject cfg h v = Inr t \<and> (v \<noteq> Undefined \<longrightarrow> t \<noteq> None)"
proof (cases "v = Undefined")
  case True
  then show ?thesis by (simp add: sanitizeObject_def)
next
  case False
  have "unseen h [] < Suc (length h)"
    unfolding unseen_def by (simp add: le_imp_less_Suc)
  from SerializeJSONProperty_total [OF this, of "[]" cfg "[]" v] obtain s r where
    s: "SerializeJSONProperty (Suc (length h)) cfg h [] [] [] v = Inr (s, r)" by auto
  have "r \<noteq> None"
  proof
    assume "r = None"
    from SerializeJSONProperty_None [OF s [unfolded this]] False assms show False by blast
  qed
  then obtain t where "r = Some t" by blast
  with s False show ?thesis
    by (simp add: sanitizeObject_def JSON_stringify_def del: SerializeJSONProperty.simps)
qed

lemma sanitizeObject_function:
  assumes "isFunction h v" and "[] \<notin> set (removeFields cfg)"
  shows "sanitizeObject cfg h v = Inl SyntaxError"
proof -
  from assms(1) obtain a ps where v: "v = Ref a" and l: "lookup h a = Function ps"
    by (cases v) (auto split: cell.splits)
  have "replacer cfg h [] [] v = ([v], RVal v)"
    using assms(2) v l by (simp add: replacer_def)
  with v l show ?thesis by (simp add: sanitizeObject_def JSON_stringify_def)
qed



section \<open>Properties of the argument mapper\<close>

lemma obj_set_new: "k \<notin> fst ` set ps \<Longrightarrow> obj_set ps k v = ps @ [(k, v)]"
  by (induction ps) auto

lemma combine_from_by_position:
  "distinct names \<Longrightarrow> i + length arr \<le> length names \<Longrightarrow> map fst ret = take i names \<Longrightarrow>
     combine_from names i arr ret = ret @ zip (take (length arr) (drop i names)) arr"
proof (induction arr arbitrary: i ret)
  case Nil
  then show ?case by simp
next
  case (Cons a arr)
  from Cons.prems(2) have i: "i < length names" by simp
  have "names ! i \<notin> set (take i names)"
    using Cons.prems(1) i by (metis distinct_take id_take_nth_drop not_distinct_conv_prefix)
  then have "names ! i \<notin> fst ` set ret"
    using Cons.prems(3) by (metis list.set_map)
  then have s: "obj_set ret (key_at names i) a = ret @ [(names ! i, a)]"
    using i by (simp add: key_at_def obj_set_new)
  have m: "map fst (ret @ [(names ! i, a)]) = take (Suc i) names"
    using Cons.prems(3) i by (simp add: take_Suc_conv_app_nth)
  have "combine_from names (Suc i) arr (ret @ [(names ! i, a)])
          = (ret @ [(names ! i, a)]) @ zip (take (length arr) (drop (Suc i) names)) arr"
    using Cons.prems(1,2) m by (intro Cons.IH) simp_all
  with s i show ?case by (simp add: Cons_nth_drop_Suc [symmetric])
qed

lemma zip_take_length_right: "zip (take (length ys) xs) ys = zip xs ys"
proof (induction ys arbitrary: xs)
  case Nil
  then show ?case by simp
next
  case (Cons y ys)
  then show ?case by (cases xs) simp_all
qed

lemma combineObject_by_position:
  "distinct names \<Longrightarrow> length arr \<le> length names \<Longrightarrow> combineObject names arr = zip names arr"
  using combine_from_by_position [of names 0 arr "[]"]
  by (simp add: combineObject_def zip_take_length_right)


section \<open>Properties of the wrappers\<close>

lemma formatInput_returns: "\<exists>s. formatInput inspect opts args w = Inr s"
proof (cases "params opts = []")
  case True
  then show ?thesis by (simp add: formatInput_def)
next
  case False
  have "\<not> isFunction (mem w @ [Object (combineObject (params opts) args)]) (Ref (length (mem w)))"
    by (simp add: lookup_def)
  from sanitizeObject_returns [OF this, of "conf w"] False show ?thesis
    by (auto simp: formatInput_def alloc_def serializeObject_def)
qed

lemma log_allocates_id: "seqId (snd (log inspect method lg opts args w)) = Suc (seqId w)"
  by (auto simp: log_def Let_def logExit_def logger_debug_def logger_error_def
      split: sum.splits outcome.splits settled.splits if_splits)

lemma log_after_reset: "seqId (snd (log inspect method lg opts args (resetId w))) = 1"
  by (simp add: log_allocates_id resetId_def)

lemma log_rethrows:
  assumes "method args = Throw e"
  shows "fst (log inspect method lg opts args w) = Throw e"
proof -
  obtain s where "formatInput inspect opts args (w\<lparr>seqId := seqId w + 1\<rparr>) = Inr s"
    using formatInput_returns by blast
  with assms show ?thesis by (simp add: log_def Let_def)
qed

lemma log_rejects:
  assumes "method args = Deferred (Reject e)"
  shows "fst (log inspect method lg opts args w) = Deferred (Reject e)
       \<and> (\<exists>label. sink (snd (log inspect method lg opts args w))
              = sink (logger_debug lg
                        (DebugRec (Suc (seqId w)) (''ENTER '' @ methodName opts @ '':'')
                           (projr (formatInput inspect opts args (w\<lparr>seqId := Suc (seqId w)\<rparr>))))
                        w)
                @ [ErrorRec (Some (Suc (seqId w))) label e])"
proof -
  obtain s where "formatInput inspect opts args (w\<lparr>seqId := Suc (seqId w)\<rparr>) = Inr s"
    using formatInput_returns by blast
  with assms show ?thesis
    by (simp add: log_def Let_def logger_error_def logger_debug_def)
qed

lemma log_returns:
  assumes "method args = Return v" and "removeOutput opts \<or> \<not> isFunction (mem w) v"
  shows "fst (log inspect method lg opts args w) = Return v"
proof -
  obtain s where s: "formatInput inspect opts args (w\<lparr>seqId := seqId w + 1\<rparr>) = Inr s"
    using formatInput_returns by blast
  have "\<exists>w3. logExit inspect lg opts v (seqId w + 1)
          (logger_debug lg (DebugRec (seqId w + 1) (''ENTER '' @ methodName opts @ '':'') s)
             (w\<lparr>seqId := seqId w + 1\<rparr>)) = Inr w3"
  proof (cases "removeOutput opts")
    case True
    then show ?thesis by (simp add: logExit_def)
  next
    case False
    with assms(2) have "\<not> isFunction (mem w) v" by simp
    from sanitizeObject_returns [OF this, of "conf w"] False show ?thesis
      by (auto simp: logExit_def serializeObject_def logger_debug_def)
  qed
  with assms(1) s show ?thesis by (auto simp: log_def Let_def)
qed

lemma logExit_returns:
  assumes "removeOutput opts \<or> \<not> isFunction (mem w) v"
  shows "\<exists>w'. logExit inspect lg opts v ident w = Inr w'"
proof (cases "removeOutput opts")
  case True
  then show ?thesis by (simp add: logExit_def)
next
  case False
  with assms have "\<not> isFunction (mem w) v" by simp
  from sanitizeObject_returns [OF this, of "conf w"] False show ?thesis
    by (auto simp: logExit_def serializeObject_def)
qed

lemma log_resolves:
  assumes "method args = Deferred (Resolve v)" and "removeOutput opts \<or> \<not> isFunction (mem w) v"
  shows "fst (log inspect method lg opts args w) = Deferred (Resolve v)"
proof -
  obtain s where s: "formatInput inspect opts args (w\<lparr>seqId := seqId w + 1\<rparr>) = Inr s"
    using formatInput_returns by blast
  let ?w2 = "logger_debug lg (DebugRec (seqId w + 1) (''ENTER '' @ methodName opts @ '':'') s)
               (w\<lparr>seqId := seqId w + 1\<rparr>)"
  have "removeOutput opts \<or> \<not> isFunction (mem ?w2) v"
    using assms(2) by (simp add: logger_debug_def)
  from logExit_returns [OF this] obtain w3 where
    "logExit inspect lg opts v (seqId w + 1) ?w2 = Inr w3" by blast
  with assms(1) s show ?thesis by (auto simp: log_def Let_def)
qed

lemma validate_passes:
  assumes "schema m (combineObject (params m) args) = Inr normalized"
  shows "validate m args = body m (map (get_own normalized) (params m))"
  using assms by (simp add: validate_def)

lemma composed_returns:
  assumes "schema m (combineObject (params m) args) = Inr normalized"
    and "body m (map (get_own normalized) (params m)) = Return v"
    and "removeOutput m \<or> \<not> isFunction (mem w) v"
  shows "fst (log inspect (validate m) lg m args w) = Return v"
  using log_returns [of "validate m" args v m w inspect lg] validate_passes [OF assms(1)] assms(2,3)
  by simp


lemmas eval_defs =
  decorate_def resolve_def invoke_def log_def formatInput_def validate_def logExit_def
  serializeObject_def sanitizeObject_def JSON_stringify_def replacer_def lookup_def alloc_def
  combineObject_def key_at_def get_own_def getParams_def digit_char_def
  initial_def default_config_def default_loggerFactory_def createLogger_def
  logger_debug_def logger_error_def configure_def extend_config_def resetId_def
  accept_all_def refuse_def getHandler_def failing_def add_def getUser_def getUserSync_def
  func.extend_def settings.truncate_def Let_def

section \<open>The claims\<close>

text \<open>
  C1. The claim: for every input value the serializer returns a text and never raises,
  falling back to a degraded rendering on any internal failure, and the exit record is
  still emitted. Evaluated on the code: for a function value \<open>JSON.stringify\<close> yields
  \<open>undefined\<close>, \<open>JSON.parse\<close> raises \<open>SyntaxError\<close>, nothing catches it; the
  decorated operation that returns this value throws the error to its caller, and
  only the enter record has been emitted.
\<close>

theorem serializer_raises_on_function:
  "serializeObject inspect default_config [Function []] (Ref 0) = Inl SyntaxError
   \<and> map (\<lambda>(name, d). invoke inspect d [] (initial [Function []]))
        (decorate [(''getHandler'', getHandler)] ''HandlerService'' (initial [Function []]))
     = [(Throw SyntaxError,
         \<lparr>seqId = 1, conf = default_config, mem = [Function []],
          sink = [DebugRec 1 ''ENTER getHandler:'' ''{ }'']\<rparr>)]"
  by (simp add: eval_defs)

text \<open>
  C2. When the schema engine rejects the named arguments, the validation wrapper
  throws that failure if the operation is declared synchronous and otherwise returns
  a deferred value rejected with that failure; the logging wrapper around it hands
  the caller the same outcome through the same channel.
\<close>

theorem validation_failure_channel:
  assumes "schema (d_meth d) (combineObject (params (d_meth d)) args) = Inl e"
  shows "validate (d_meth d) args = (if sync (d_meth d) then Throw e else Deferred (Reject e))
       \<and> fst (invoke inspect d args w)
           = (if sync (d_meth d) then Throw e else Deferred (Reject e))"
proof
  from assms show v:
    "validate (d_meth d) args = (if sync (d_meth d) then Throw e else Deferred (Reject e))"
    by (simp add: validate_def)
  show "fst (invoke inspect d args w)
          = (if sync (d_meth d) then Throw e else Deferred (Reject e))"
  proof (cases "sync (d_meth d)")
    case True
    with v log_rethrows [of "validate (d_meth d)" args e] show ?thesis
      by (simp add: invoke_def)
  next
    case False
    with v log_rejects [of "validate (d_meth d)" args e] show ?thesis
      by (simp add: invoke_def)
  qed
qed

theorem validation_failure_channel_witness:
  "map (\<lambda>(name, d).
          (schema (d_meth d) (combineObject (params (d_meth d)) [Str ''x'']),
           sync (d_meth d),
           validate (d_meth d) [Str ''x''],
           fst (invoke show_value d [Str ''x''] (initial []))))
     (decorate [(''getUser'', getUser), (''getUserSync'', getUserSync)] ''UserService'' (initial []))
   = [(Inl (Raised (Str ''id must be a number'')), False,
       Deferred (Reject (Raised (Str ''id must be a number''))),
       Deferred (Reject (Raised (Str ''id must be a number'')))),
      (Inl (Raised (Str ''id must be a number'')), True,
       Throw (Raised (Str ''id must be a number'')),
       Throw (Raised (Str ''id must be a number'')))]"
proof -
  let ?lg = "createLogger ''UserService'' LDebug"
  let ?a = "\<lparr>d_logger = ?lg, d_meth = resolve ''getUser'' getUser\<rparr>"
  let ?s = "\<lparr>d_logger = ?lg, d_meth = resolve ''getUserSync'' getUserSync\<rparr>"
  have d: "decorate [(''getUser'', getUser), (''getUserSync'', getUserSync)] ''UserService'' (initial [])
             = [(''getUser'', ?a), (''getUserSync'', ?s)]"
    by (simp add: decorate_def initial_def default_config_def default_loggerFactory_def
        settings.truncate_def Let_def)
  have a: "schema (d_meth ?a) (combineObject (params (d_meth ?a)) [Str ''x''])
             = Inl (Raised (Str ''id must be a number''))"
    by (simp add: eval_defs)
  have s: "schema (d_meth ?s) (combineObject (params (d_meth ?s)) [Str ''x''])
             = Inl (Raised (Str ''id must be a number''))"
    by (simp add: eval_defs)
  have fa: "sync (d_meth ?a) = False" and fs: "sync (d_meth ?s) = True"
    by (simp_all add: resolve_def getUser_def getUserSync_def func.extend_def)
  show ?thesis
    using validation_failure_channel [OF a, of show_value "initial []"]
      validation_failure_channel [OF s, of show_value "initial []"]
    by (simp only: d a s fa fs list.map prod.case if_True if_False simp_thms)
qed

text \<open>
  C3. The claim: when the underlying function fails, the logging wrapper emits an
  error record that carries the correlation id and the raw error, then passes the same
  error on. Evaluated on the code for an operation that throws: the error is passed
  on unchanged, but the record is the one of \<open>logger.error(e)\<close>, which has no
  correlation id; only the handler of a rejected deferred value logs \<open>{ id }\<close>.
\<close>

theorem synchronous_error_record_has_no_id:
  "map (\<lambda>(name, d). invoke inspect d [] (initial []))
     (decorate [(''failing'', failing)] ''FailingService'' (initial []))
   = [(Throw (Raised (Str ''boom'')),
       \<lparr>seqId = 1, conf = default_config, mem = [],
        sink = [DebugRec 1 ''ENTER failing:'' ''{ }'',
                ErrorRec None [] (Raised (Str ''boom''))]\<rparr>)]"
  by (simp add: eval_defs)

text \<open>
  C4. The claim: with a satisfied schema the composed wrapper returns exactly what the
  original function returns on the normalized arguments. Evaluated on the code for an
  operation whose schema accepts the call and whose body returns a function: the
  wrapper throws the \<open>SyntaxError\<close> of the serializer instead of returning the value.
\<close>

theorem composed_wrapper_throws_on_function_result:
  "map (\<lambda>(name, d).
          (schema (d_meth d) (combineObject (params (d_meth d)) []),
           body (d_meth d) (map (get_own []) (params (d_meth d))),
           fst (invoke inspect d [] (initial [Function []]))))
     (decorate [(''getHandler'', getHandler)] ''HandlerService'' (initial [Function []]))
   = [(Inr [], Return (Ref 0), Throw SyntaxError)]"
  by (simp add: eval_defs)

text \<open>
  C5. The claim: arguments beyond the declared parameters are dropped from the named
  mapping, and with no parameter names the mapping is empty. Evaluated on the code:
  \<open>params[i]\<close> beyond the end is \<open>undefined\<close>, so each extra argument is stored under
  the key \<open>undefined\<close>.
\<close>

theorem combineObject_keeps_extra_arguments:
  "combineObject [''a''] [Num 1, Num 2] = [(''a'', Num 1), (''undefined'', Num 2)]
   \<and> combineObject [] [Num 1] = [(''undefined'', Num 1)]"
  by (simp add: combineObject_def key_at_def)

text \<open>
  C6. The claim: each invocation allocates one new id, shared by its enter record and
  its exit or error record; ids increase; after \<open>resetId\<close> the next id is 1. Evaluated
  on the code for two successive calls of an operation that throws: the ids 1 and 2
  are allocated and carried by the enter records, and neither error record carries an
  id.
\<close>

theorem error_records_do_not_share_the_id:
  "map (\<lambda>(name, d).
          map rec_id
            (sink (snd (invoke inspect d [] (snd (invoke inspect d [] (initial [])))))))
     (decorate [(''failing'', failing)] ''FailingService'' (initial []))
   = [[Some 1, None, Some 2, None]]"
  by (simp add: eval_defs)












end
